theory Spec2Isabelle
  imports Complex_Main "HOL-Library.Sublist" "HOL-Library.Multiset"
begin

section \<open>Data model\<close>

text \<open>
  The analysis dictionary built by \<^verbatim>\<open>AnalyzerAgent.analyze_text\<close> and read by
  \<^verbatim>\<open>EvaluatorAgent.score\<close>. Python's unbounded \<^verbatim>\<open>int\<close> is \<^typ>\<open>int\<close>. A Python
  \<^verbatim>\<open>float\<close> is modelled by the exact rational number it stands for: the binary
  rounding of IEEE doubles is outside this model, so every statement below about a
  float is a statement about exact arithmetic. With the default weights all the
  scorer's values are small multiples of one half, which doubles represent exactly.
\<close>

record measurement =
  m_value :: rat
  m_unit :: string
  m_raw :: string

record analysis =
  word_count :: int
  sentence_count :: int
  numbers_found :: "rat list"
  measurements :: "measurement list"
  keywords_detected :: "string list"
  claims :: "string list"
  snippet :: string

text \<open>The wrapper returned by \<^verbatim>\<open>run_on_item\<close>; \<^verbatim>\<open>None\<close> is \<^term>\<open>None\<close>.\<close>

record analysis_item =
  original_id :: "string option"
  title :: "string option"
  source :: "string option"
  analysis :: analysis

text \<open>
  Each reason is an f-string of the source; it is modelled by a constructor that
  carries the values the f-string interpolates, in the order they appear.
\<close>

datatype reason =
    KeywordsDetected nat rat
  | NumericDensityHigh nat rat
  | MeasurementsFound nat rat
  | ContentLengthSufficient int rat
  | ShortContent int
  | ClaimsDetected nat rat
  | VeryShortContent

record score_result =
  r_original_id :: "string option"
  r_score :: rat
  r_passed_threshold :: bool
  r_reasons :: "reason list"
  r_breakdown :: "string \<rightharpoonup> rat"
  r_raw_analysis :: analysis

section \<open>Text\<close>

text \<open>
  A Python \<^verbatim>\<open>str\<close> is a sequence of code points. The model is \<^typ>\<open>string\<close>, whose
  characters are the code points below 256; \<^verbatim>\<open>len\<close> is \<^const>\<open>length\<close>. The character
  classes below are Python's on that range; texts with larger code points are outside
  the model.
\<close>

definition code :: "char \<Rightarrow> nat" where
  "code c = of_char c"

text \<open>\<^verbatim>\<open>str.isspace\<close>, which is also the class \<^verbatim>\<open>\s\<close> and what \<^verbatim>\<open>split\<close> and \<^verbatim>\<open>strip\<close> use.\<close>

definition is_space :: "char \<Rightarrow> bool" where
  "is_space c =
     (let n = code c in (9 \<le> n \<and> n \<le> 13) \<or> (28 \<le> n \<and> n \<le> 32) \<or> n = 133 \<or> n = 160)"

text \<open>The class \<^verbatim>\<open>\d\<close>.\<close>

definition is_digit :: "char \<Rightarrow> bool" where
  "is_digit c = (let n = code c in 48 \<le> n \<and> n \<le> 57)"

text \<open>\<^verbatim>\<open>str.lower\<close>: the capital letters are A to Z and 0xC0 to 0xDE without 0xD7.\<close>

definition lower_char :: "char \<Rightarrow> char" where
  "lower_char c =
     (let n = code c
      in if (65 \<le> n \<and> n \<le> 90) \<or> (192 \<le> n \<and> n \<le> 214) \<or> (216 \<le> n \<and> n \<le> 222)
         then char_of (n + 32) else c)"

definition lower :: "string \<Rightarrow> string" where
  "lower s = map lower_char s"

text \<open>\<^verbatim>\<open>sub in s\<close> on strings: \<^verbatim>\<open>sub\<close> starts at some position of \<^verbatim>\<open>s\<close>.\<close>

fun py_in :: "'a list \<Rightarrow> 'a list \<Rightarrow> bool" where
  "py_in sub [] = (sub = [])"
| "py_in sub (c # cs) = (prefix sub (c # cs) \<or> py_in sub cs)"

text \<open>\<^verbatim>\<open>s.replace(old, new)\<close> for one-character strings.\<close>

definition replace_char :: "char \<Rightarrow> char \<Rightarrow> string \<Rightarrow> string" where
  "replace_char old new s = map (\<lambda>c. if c = old then new else c) s"

text \<open>\<^verbatim>\<open>_WS_RE.sub(" ", text)\<close>: every maximal run of white space becomes one space.\<close>

function sub_ws :: "string \<Rightarrow> string" where
  "sub_ws [] = []"
| "sub_ws (c # cs) =
     (if is_space c then CHR '' '' # sub_ws (dropWhile is_space cs) else c # sub_ws cs)"
  by pat_completeness auto
termination
  by (relation "measure length") (auto simp: less_Suc_eq_le length_dropWhile_le)

text \<open>\<^verbatim>\<open>s.strip()\<close>.\<close>

definition strip :: "string \<Rightarrow> string" where
  "strip s = rev (dropWhile is_space (rev (dropWhile is_space s)))"

text \<open>\<^verbatim>\<open>s.split()\<close>: the maximal runs of characters that are not white space.\<close>

function py_split :: "string \<Rightarrow> string list" where
  "py_split s =
     (case dropWhile is_space s of
        [] \<Rightarrow> []
      | c # cs \<Rightarrow> (c # takeWhile (\<lambda>x. \<not> is_space x) cs)
                 # py_split (dropWhile (\<lambda>x. \<not> is_space x) cs))"
  by pat_completeness auto
termination
proof (relation "measure length")
  show "wf (measure length)"
    by simp
next
  fix s :: string and c cs
  assume "dropWhile is_space s = c # cs"
  then have "Suc (length cs) \<le> length s"
    using length_dropWhile_le [of is_space s] by simp
  moreover have "length (dropWhile (\<lambda>x. \<not> is_space x) cs) \<le> length cs"
    by (rule length_dropWhile_le)
  ultimately show "(dropWhile (\<lambda>x. \<not> is_space x) cs, s) \<in> measure length"
    by simp
qed

declare py_split.simps [simp del]

text \<open>\<^verbatim>\<open>tools.parser_utils.clean_text\<close>.\<close>

definition clean_text :: "string \<Rightarrow> string" where
  "clean_text text =
     (if text = [] then []
      else strip (sub_ws (replace_char (CHR 0x09) CHR '' ''
                           (replace_char (CHR 0x0D) CHR '' '' text))))"

section \<open>The patterns of the analyzer\<close>

text \<open>
  Each pattern is a function from the text at the current position to the matched text
  and the text after it, or \<^term>\<open>None\<close> when the pattern does not match there. The
  quantifiers of these patterns are greedy, and giving characters back never helps:
  what follows a run of digits, of separators or of unit characters cannot start with a
  character of that run. So only the alternatives \<^verbatim>\<open>|\<close> and the optional exponent are
  choice points; \<^const>\<open>None\<close> from the first choice tries the second.
\<close>

definition orelse :: "'a option \<Rightarrow> 'a option \<Rightarrow> 'a option" where
  "orelse a b = (case a of None \<Rightarrow> b | Some x \<Rightarrow> Some x)"

text \<open>\<^verbatim>\<open>[-+]?\<close>\<close>

definition opt_sign :: "string \<Rightarrow> string \<times> string" where
  "opt_sign s =
     (case s of
        [] \<Rightarrow> ([], [])
      | c # cs \<Rightarrow> if c = CHR ''-'' \<or> c = CHR ''+'' then ([c], cs) else ([], s))"

text \<open>\<^verbatim>\<open>[-+]?\d*\.\d+\<close>\<close>

definition match_decimal :: "string \<Rightarrow> (string \<times> string) option" where
  "match_decimal s =
     (let (sg, r1) = opt_sign s;
          ip = takeWhile is_digit r1;
          r2 = dropWhile is_digit r1
      in case r2 of
           [] \<Rightarrow> None
         | d # r3 \<Rightarrow>
             if d = CHR ''.'' \<and> takeWhile is_digit r3 \<noteq> []
             then Some (sg @ ip @ d # takeWhile is_digit r3, dropWhile is_digit r3)
             else None)"

text \<open>\<^verbatim>\<open>\d+\<close>\<close>

definition match_digits :: "string \<Rightarrow> (string \<times> string) option" where
  "match_digits s =
     (if takeWhile is_digit s = [] then None
      else Some (takeWhile is_digit s, dropWhile is_digit s))"

text \<open>\<^verbatim>\<open>_NUMBER_RE\<close>, that is \<^verbatim>\<open>[-+]?\d*\.\d+|\d+\<close>: the sign belongs to the first alternative.\<close>

definition match_number :: "string \<Rightarrow> (string \<times> string) option" where
  "match_number s = orelse (match_decimal s) (match_digits s)"

lemma match_decimal_shorter:
  assumes "match_decimal s = Some (tok, rest)"
  shows "length rest < length s"
proof -
  obtain sg r1 where sg: "opt_sign s = (sg, r1)"
    by (cases "opt_sign s")
  have l1: "length r1 \<le> length s"
    using sg by (auto simp: opt_sign_def split: list.splits if_splits)
  from assms sg obtain d r3
    where r2: "dropWhile is_digit r1 = d # r3" and rest: "rest = dropWhile is_digit r3"
    by (auto simp: match_decimal_def Let_def split: list.splits if_splits)
  have "Suc (length r3) \<le> length r1"
    using length_dropWhile_le [of is_digit r1] r2 by simp
  moreover have "length rest \<le> length r3"
    unfolding rest by (rule length_dropWhile_le)
  ultimately show ?thesis
    using l1 by simp
qed

lemma match_digits_shorter:
  assumes "match_digits s = Some (tok, rest)"
  shows "length rest < length s"
proof -
  from assms have ne: "takeWhile is_digit s \<noteq> []" and rest: "rest = dropWhile is_digit s"
    by (auto simp: match_digits_def split: if_splits)
  have "length (takeWhile is_digit s) + length (dropWhile is_digit s) = length s"
    by (metis length_append takeWhile_dropWhile_id)
  with ne rest show ?thesis
    by (cases "takeWhile is_digit s") auto
qed

lemma match_number_shorter:
  "match_number s = Some (tok, rest) \<Longrightarrow> length rest < length s"
  by (auto simp: match_number_def orelse_def split: option.splits
      dest: match_decimal_shorter match_digits_shorter)

text \<open>
  \<^verbatim>\<open>_NUMBER_RE.findall(text)\<close>: the matches from left to right, each search starting
  where the last match ended, or one character further when there is no match.
\<close>

function findall_numbers :: "string \<Rightarrow> string list" where
  "findall_numbers [] = []"
| "findall_numbers (c # cs) =
     (case match_number (c # cs) of
        Some (tok, rest) \<Rightarrow> tok # findall_numbers rest
      | None \<Rightarrow> findall_numbers cs)"
  by pat_completeness auto
termination
  by (relation "measure length") (auto dest: match_number_shorter)

text \<open>
  \<^verbatim>\<open>float(s)\<close> on a decimal literal: sign, digits, point, digits, exponent, with a digit
  on at least one side of the point. \<^term>\<open>None\<close> is \<^verbatim>\<open>ValueError\<close>. Python's \<^verbatim>\<open>float\<close>
  also reads \<^verbatim>\<open>inf\<close>, \<^verbatim>\<open>nan\<close>, digits grouped by underscores and surrounding
  white space; no match of the two patterns has any of these.
\<close>

definition digits_value :: "string \<Rightarrow> nat" where
  "digits_value ds = foldl (\<lambda>a c. 10 * a + (code c - 48)) 0 ds"

definition float_exponent :: "string \<Rightarrow> int option" where
  "float_exponent s =
     (case s of
        [] \<Rightarrow> Some 0
      | c # cs \<Rightarrow>
          if c = CHR ''e'' \<or> c = CHR ''E''
          then (let (sg, ds) = opt_sign cs
                in if ds \<noteq> [] \<and> list_all is_digit ds
                   then Some (if sg = ''-'' then - int (digits_value ds) else int (digits_value ds))
                   else None)
          else None)"

definition scale10 :: "rat \<Rightarrow> int \<Rightarrow> rat" where
  "scale10 x e = (if 0 \<le> e then x * 10 ^ nat e else x / 10 ^ nat (- e))"

definition py_float :: "string \<Rightarrow> rat option" where
  "py_float s =
     (let (sg, r1) = opt_sign s;
          ip = takeWhile is_digit r1;
          r2 = dropWhile is_digit r1;
          (fp, r3) = (case r2 of
                        [] \<Rightarrow> ([], [])
                      | d # r \<Rightarrow> if d = CHR ''.''
                                 then (takeWhile is_digit r, dropWhile is_digit r)
                                 else ([], r2))
      in if ip = [] \<and> fp = [] then None
         else case float_exponent r3 of
                None \<Rightarrow> None
              | Some e \<Rightarrow>
                  let m = of_nat (digits_value ip) + of_nat (digits_value fp) / 10 ^ length fp
                  in Some (scale10 (if sg = ''-'' then - m else m) e))"

text \<open>
  \<^verbatim>\<open>AnalyzerAgent._extract_numbers\<close>: the loop over the matches, where a match that
  \<^verbatim>\<open>float\<close> rejects is passed over (\<^verbatim>\<open>except Exception: continue\<close>).
\<close>

fun extract_numbers_loop :: "string list \<Rightarrow> rat list" where
  "extract_numbers_loop [] = []"
| "extract_numbers_loop (m # ms) =
     (case py_float m of
        None \<Rightarrow> extract_numbers_loop ms
      | Some v \<Rightarrow> v # extract_numbers_loop ms)"

definition extract_numbers :: "string \<Rightarrow> rat list" where
  "extract_numbers text = extract_numbers_loop (findall_numbers text)"

text \<open>
  The unit class \<^verbatim>\<open>[A-Za-z/%\<degree>\<mu>kmhdys]\<close> under \<^verbatim>\<open>re.IGNORECASE\<close>: the letters, the
  slash, the percent sign, the degree sign 0xB0 and the micro sign 0xB5, which the flag
  makes equal to the Greek letter of the class.
\<close>

definition is_unit_char :: "char \<Rightarrow> bool" where
  "is_unit_char c =
     (let n = code c
      in (65 \<le> n \<and> n \<le> 90) \<or> (97 \<le> n \<and> n \<le> 122) \<or> n = 47 \<or> n = 37 \<or> n = 176 \<or> n = 181)"

text \<open>\<^verbatim>\<open>[\s\-]\<close>\<close>

definition is_sep :: "char \<Rightarrow> bool" where
  "is_sep c = (is_space c \<or> c = CHR ''-'')"

text \<open>\<^verbatim>\<open>e[-+]?\d+\<close>, where the flag lets \<^verbatim>\<open>e\<close> be a capital too.\<close>

definition match_exponent :: "string \<Rightarrow> (string \<times> string) option" where
  "match_exponent s =
     (case s of
        [] \<Rightarrow> None
      | c # cs \<Rightarrow>
          if c = CHR ''e'' \<or> c = CHR ''E''
          then (let (sg, r) = opt_sign cs
                in if takeWhile is_digit r = [] then None
                   else Some (c # sg @ takeWhile is_digit r, dropWhile is_digit r))
          else None)"

text \<open>A match of \<^verbatim>\<open>_MEASUREMENT_RE\<close>: the groups raw, value and unit, and the text after.\<close>

type_synonym mmatch = "string \<times> string \<times> string \<times> string"

text \<open>\<^verbatim>\<open>[\s\-]*(?P<unit>[...]+)\<close> after the value \<^verbatim>\<open>v\<close>.\<close>

definition match_unit :: "string \<Rightarrow> string \<Rightarrow> mmatch option" where
  "match_unit v s =
     (let sep = takeWhile is_sep s;
          r = dropWhile is_sep s;
          u = takeWhile is_unit_char r
      in if u = [] then None else Some (v @ sep @ u, v, u, dropWhile is_unit_char r))"

text \<open>
  \<^verbatim>\<open>_MEASUREMENT_RE\<close>: the value is \<^verbatim>\<open>[-+]?\d*\.\d+\<close>, or else \<^verbatim>\<open>\d+\<close> with the
  exponent, or else \<^verbatim>\<open>\d+\<close> without it.
\<close>

definition match_measurement :: "string \<Rightarrow> mmatch option" where
  "match_measurement s =
     orelse
       (case match_decimal s of
          None \<Rightarrow> None
        | Some (v, r) \<Rightarrow> match_unit v r)
       (case match_digits s of
          None \<Rightarrow> None
        | Some (ds, r) \<Rightarrow>
            orelse
              (case match_exponent r of
                 None \<Rightarrow> None
               | Some (ex, r') \<Rightarrow> match_unit (ds @ ex) r')
              (match_unit ds r))"

lemma match_unit_shorter:
  assumes "match_unit v s = Some (raw, v', u, rest)"
  shows "length rest \<le> length s"
proof -
  from assms have "rest = dropWhile is_unit_char (dropWhile is_sep s)"
    by (auto simp: match_unit_def Let_def split: if_splits)
  then show ?thesis
    using length_dropWhile_le [of is_unit_char "dropWhile is_sep s"]
      length_dropWhile_le [of is_sep s]
    by simp
qed

lemma match_exponent_shorter:
  assumes "match_exponent s = Some (ex, rest)"
  shows "length rest \<le> length s"
proof -
  from assms obtain c cs where s: "s = c # cs"
    by (cases s) (auto simp: match_exponent_def)
  obtain sg r where sg: "opt_sign cs = (sg, r)"
    by (cases "opt_sign cs")
  then have "length r \<le> length cs"
    by (auto simp: opt_sign_def split: list.splits if_splits)
  moreover from assms s sg have "rest = dropWhile is_digit r"
    by (auto simp: match_exponent_def Let_def split: if_splits)
  ultimately show ?thesis
    using length_dropWhile_le [of is_digit r] s by simp
qed

lemma match_measurement_shorter:
  assumes "match_measurement s = Some (raw, v, u, rest)"
  shows "length rest < length s"
  using assms
  by (auto simp: match_measurement_def orelse_def split: option.splits
      dest!: match_decimal_shorter match_digits_shorter match_unit_shorter match_exponent_shorter)

text \<open>\<^verbatim>\<open>_MEASUREMENT_RE.finditer(text)\<close>, and \<^verbatim>\<open>_MEASUREMENT_RE.search(s)\<close> as a truth value.\<close>

function finditer_measurements :: "string \<Rightarrow> (string \<times> string \<times> string) list" where
  "finditer_measurements [] = []"
| "finditer_measurements (c # cs) =
     (case match_measurement (c # cs) of
        Some (raw, v, u, rest) \<Rightarrow> (raw, v, u) # finditer_measurements rest
      | None \<Rightarrow> finditer_measurements cs)"
  by pat_completeness auto
termination
  by (relation "measure length") (auto dest: match_measurement_shorter)

fun search_measurement :: "string \<Rightarrow> bool" where
  "search_measurement [] = False"
| "search_measurement (c # cs) =
     (case match_measurement (c # cs) of
        Some m \<Rightarrow> True
      | None \<Rightarrow> search_measurement cs)"

text \<open>
  \<^verbatim>\<open>AnalyzerAgent._extract_measurements\<close>. The unit is stripped; the replacement of the
  Greek letter U+03BC by \<^verbatim>\<open>u\<close> finds nothing to replace in a text of code points below
  256. A value that \<^verbatim>\<open>float\<close> rejects is passed over.
\<close>

fun extract_measurements_loop :: "(string \<times> string \<times> string) list \<Rightarrow> measurement list" where
  "extract_measurements_loop [] = []"
| "extract_measurements_loop ((raw, val_str, u) # ms) =
     (case py_float val_str of
        None \<Rightarrow> extract_measurements_loop ms
      | Some v \<Rightarrow> \<lparr> m_value = v, m_unit = strip u, m_raw = raw \<rparr> # extract_measurements_loop ms)"

definition extract_measurements :: "string \<Rightarrow> measurement list" where
  "extract_measurements text = extract_measurements_loop (finditer_measurements text)"

text \<open>
  \<^verbatim>\<open>_SENTENCE_SPLIT_RE.split(text)\<close>: the text is cut at every run of white space that
  follows a full stop, a question mark or an exclamation mark. \<^verbatim>\<open>piece\<close> is the part of
  the current piece already read.
\<close>

definition is_sentence_end :: "char \<Rightarrow> bool" where
  "is_sentence_end c = (c = CHR ''.'' \<or> c = CHR ''?'' \<or> c = CHR ''!'')"

function split_sentences :: "string \<Rightarrow> string \<Rightarrow> string list" where
  "split_sentences piece [] = [piece]"
| "split_sentences piece (c # cs) =
     (if is_sentence_end c \<and> takeWhile is_space cs \<noteq> []
      then (piece @ [c]) # split_sentences [] (dropWhile is_space cs)
      else split_sentences (piece @ [c]) cs)"
  by pat_completeness auto
termination
  by (relation "measure (\<lambda>(piece, s). length s)")
    (auto simp: less_Suc_eq_le length_dropWhile_le)

text \<open>\<^verbatim>\<open>AnalyzerAgent._extract_sentences\<close>.\<close>

definition extract_sentences :: "string \<Rightarrow> string list" where
  "extract_sentences text =
     (if text = [] then []
      else map strip (filter (\<lambda>s. strip s \<noteq> []) (split_sentences [] text)))"

section \<open>AnalyzerAgent\<close>

text \<open>The attribute \<^verbatim>\<open>self.keywords\<close> is the field \<open>self_keywords\<close>.\<close>

record analyzer_agent =
  self_keywords :: "string list"
  min_claim_length :: int
  max_snippet_chars :: int

definition DEFAULT_KEYWORDS :: "string list" where
  "DEFAULT_KEYWORDS =
     [''exoplanet'', ''orbital'', ''orbit'', ''radius'', ''mass'', ''transit'', ''spectra'',
      ''spectrum'', ''atmosphere'', ''cme'', ''solar'', ''habitability'', ''habitable'',
      ''apparent magnitude'', ''period'', ''days'', ''light-years'', ''spectroscopy'']"

text \<open>
  \<^verbatim>\<open>AnalyzerAgent.__init__\<close>: the vocabulary is the configured one, or the default one
  when none or an empty one is configured, in lower case.
\<close>

definition AnalyzerAgent_init :: "string list option \<Rightarrow> int \<Rightarrow> int \<Rightarrow> analyzer_agent" where
  "AnalyzerAgent_init kws mcl msc =
     \<lparr> self_keywords = map lower (case kws of
                                     None \<Rightarrow> DEFAULT_KEYWORDS
                                   | Some ks \<Rightarrow> if ks = [] then DEFAULT_KEYWORDS else ks),
       min_claim_length = mcl,
       max_snippet_chars = msc \<rparr>"

text \<open>\<^verbatim>\<open>AnalyzerAgent()\<close>\<close>

definition AnalyzerAgent_default :: analyzer_agent where
  "AnalyzerAgent_default = AnalyzerAgent_init None 30 400"

definition find_keywords :: "analyzer_agent \<Rightarrow> string \<Rightarrow> string list" where
  "find_keywords self text =
     (let lowered = lower text in filter (\<lambda>kw. py_in kw lowered) (self_keywords self))"

definition find_claims :: "analyzer_agent \<Rightarrow> string \<Rightarrow> string list" where
  "find_claims self text =
     filter (\<lambda>s. \<not> int (length s) < min_claim_length self
                 \<and> (search_measurement s
                      \<or> list_ex (\<lambda>kw. py_in kw (lower s)) (self_keywords self)))
       (extract_sentences text)"

text \<open>The slice \<^verbatim>\<open>s[:n]\<close>; a negative \<^verbatim>\<open>n\<close> counts from the end.\<close>

definition slice_to :: "'a list \<Rightarrow> int \<Rightarrow> 'a list" where
  "slice_to s n = (if 0 \<le> n then take (nat n) s else take (nat (int (length s) + n)) s)"

text \<open>\<^verbatim>\<open>AnalyzerAgent.analyze_text\<close>\<close>

definition analyze_text :: "analyzer_agent \<Rightarrow> string \<Rightarrow> analysis" where
  "analyze_text self raw_text =
     (let cleaned = clean_text raw_text;
          sentences = extract_sentences cleaned
      in \<lparr> word_count = int (length (py_split cleaned)),
           sentence_count = int (length sentences),
           numbers_found = extract_numbers cleaned,
           measurements = extract_measurements cleaned,
           keywords_detected = find_keywords self cleaned,
           claims = find_claims self cleaned,
           snippet = slice_to cleaned (max_snippet_chars self)
                     @ (if max_snippet_chars self < int (length cleaned) then ''...'' else []) \<rparr>)"

text \<open>The item dictionary, and \<^verbatim>\<open>AnalyzerAgent.run_on_item\<close>; a missing \<^verbatim>\<open>raw\<close> is the empty text.\<close>

record item =
  item_id :: "string option"
  item_title :: "string option"
  item_source :: "string option"
  item_raw :: "string option"

definition run_on_item :: "analyzer_agent \<Rightarrow> item \<Rightarrow> analysis_item" where
  "run_on_item self it =
     \<lparr> original_id = item_id it,
       title = item_title it,
       source = item_source it,
       analysis = analyze_text self (case item_raw it of None \<Rightarrow> [] | Some raw \<Rightarrow> raw) \<rparr>"

section \<open>EvaluatorAgent\<close>

record evaluator_agent =
  threshold :: rat
  weights :: "string \<rightharpoonup> rat"
  numeric_count_for_bonus :: int
  min_word_count_for_length_bonus :: int
  min_claim_length_for_bonus :: int

definition DEFAULT_WEIGHTS :: "string \<rightharpoonup> rat" where
  "DEFAULT_WEIGHTS =
     [''keyword'' \<mapsto> 2, ''numeric_bonus'' \<mapsto> 3, ''length_bonus'' \<mapsto> 1, ''claim_bonus'' \<mapsto> 3 / 2]"

text \<open>\<^verbatim>\<open>d.get(k, default)\<close>.\<close>

definition dict_get :: "('k \<rightharpoonup> 'v) \<Rightarrow> 'k \<Rightarrow> 'v \<Rightarrow> 'v" where
  "dict_get d k dflt = (case d k of None \<Rightarrow> dflt | Some v \<Rightarrow> v)"

text \<open>
  \<^verbatim>\<open>EvaluatorAgent.__init__\<close>: the configured weights update a copy of the defaults
  (\<^verbatim>\<open>None\<close> and the empty dictionary both leave the defaults as they are).
\<close>

definition EvaluatorAgent_init :: "rat \<Rightarrow> (string \<rightharpoonup> rat) option \<Rightarrow> evaluator_agent" where
  "EvaluatorAgent_init thr ws =
     \<lparr> threshold = thr,
       weights = (case ws of None \<Rightarrow> DEFAULT_WEIGHTS | Some w \<Rightarrow> DEFAULT_WEIGHTS ++ w),
       numeric_count_for_bonus = 2,
       min_word_count_for_length_bonus = 20,
       min_claim_length_for_bonus = 1 \<rparr>"

text \<open>
  \<^verbatim>\<open>round(x, 3)\<close>: the nearest multiple of one thousandth, a tie going to the even
  one.
\<close>

definition py_round3 :: "rat \<Rightarrow> rat" where
  "py_round3 x =
     (let y = x * 1000; f = \<lfloor>y\<rfloor>; d = y - of_int f
      in of_int (if d < 1 / 2 then f else if 1 / 2 < d then f + 1
                 else if even f then f else f + 1) / 1000)"

text \<open>
  \<^verbatim>\<open>EvaluatorAgent.score\<close>. The source appends to \<^verbatim>\<open>reasons\<close> and stores into
  \<^verbatim>\<open>breakdown\<close> as it goes; the model names each intermediate state. The item is a
  dictionary with every key present and of its documented type: a key that the source
  would replace by its default (\<^verbatim>\<open>get(..., 0)\<close>, \<^verbatim>\<open>or []\<close>) is the zero or the empty
  list of the record.
\<close>

definition score :: "evaluator_agent \<Rightarrow> analysis_item \<Rightarrow> score_result" where
  "score self item =
     (let a = analysis item;
          wc = word_count a;
          numbers = numbers_found a;
          ms = measurements a;
          keywords = keywords_detected a;
          cls = claims a;
          keyword_pts = of_nat (length keywords) * dict_get (weights self) ''keyword'' 2;
          breakdown1 = Map.empty(''keyword_score'' \<mapsto> keyword_pts);
          reasons1 = (if 0 < length keywords
                      then [KeywordsDetected (length keywords) keyword_pts] else []);
          numeric_hit = (numeric_count_for_bonus self < int (length numbers));
          numeric_pts = (if numeric_hit then dict_get (weights self) ''numeric_bonus'' 3 else 0);
          reasons2 = reasons1 @ (if numeric_hit
                      then [NumericDensityHigh (length numbers) numeric_pts] else []);
          breakdown2 = breakdown1(''numeric_score'' \<mapsto> numeric_pts);
          measurement_pts = (if 0 < length ms then min (of_nat (length ms) * (1 / 2)) 3 else 0);
          reasons3 = reasons2 @ (if 0 < length ms
                      then [MeasurementsFound (length ms) measurement_pts] else []);
          breakdown3 = breakdown2(''measurement_score'' \<mapsto> measurement_pts);
          length_hit = (min_word_count_for_length_bonus self \<le> wc);
          length_pts = (if length_hit then dict_get (weights self) ''length_bonus'' 1 else 0);
          breakdown4 = breakdown3(''length_score'' \<mapsto> length_pts);
          reasons4 = reasons3 @ (if length_hit
                      then [ContentLengthSufficient wc length_pts] else [ShortContent wc]);
          claim_pts = min (of_nat (length cls) * dict_get (weights self) ''claim_bonus'' (3 / 2)) 6;
          reasons5 = reasons4 @ (if 0 < claim_pts
                      then [ClaimsDetected (length cls) claim_pts] else []);
          breakdown5 = breakdown4(''claim_score'' \<mapsto> claim_pts);
          penalty = (if wc < 6 then - 2 else 0);
          reasons6 = reasons5 @ (if wc < 6 then [VeryShortContent] else []);
          breakdown6 = breakdown5(''penalty'' \<mapsto> penalty);
          total_score = keyword_pts + numeric_pts + measurement_pts + length_pts + claim_pts + penalty;
          passed = (threshold self \<le> total_score)
      in \<lparr> r_original_id = original_id item,
           r_score = py_round3 total_score,
           r_passed_threshold = passed,
           r_reasons = reasons6,
           r_breakdown = breakdown6,
           r_raw_analysis = a \<rparr>)"

section \<open>Sample inputs\<close>

definition empty_analysis :: analysis where
  "empty_analysis =
     \<lparr> word_count = 0, sentence_count = 0, numbers_found = [], measurements = [],
       keywords_detected = [], claims = [], snippet = [] \<rparr>"

text \<open>An item of ten words in which the analyzer found nothing.\<close>

definition ten_words :: analysis_item where
  "ten_words =
     \<lparr> original_id = None, title = None, source = None,
       analysis = empty_analysis\<lparr>word_count := 10\<rparr> \<rparr>"

text \<open>\<^verbatim>\<open>EvaluatorAgent(weights={"keyword": 0.0001})\<close>.\<close>

definition fine_weights :: evaluator_agent where
  "fine_weights = EvaluatorAgent_init 3 (Some [''keyword'' \<mapsto> 1 / 10000])"

definition days33 :: measurement where
  "days33 = \<lparr> m_value = 33, m_unit = ''days'', m_raw = ''33 days'' \<rparr>"

text \<open>The sample text of the spec.\<close>

definition k2_18b :: string where
  "k2_18b = ''The exoplanet K2-18b, located 124 light-years away... radius of approximately 2.6 times that of Earth and an orbital period of 33 days.''"

text \<open>An item of one sentence that names two keywords.\<close>

definition mass_item :: item where
  "mass_item =
     \<lparr> item_id = Some ''a.txt'', item_title = None, item_source = None,
       item_raw = Some ''The mass and the orbit of the planet are known, says the paper.'' \<rparr>"

text \<open>The all-zero record.\<close>

definition zero_item :: analysis_item where
  "zero_item = \<lparr> original_id = None, title = None, source = None, analysis = empty_analysis \<rparr>"

section \<open>Rounding\<close>

lemma py_round3_of_int: "py_round3 (of_int k / 1000) = of_int k / 1000"
  by (simp add: py_round3_def)

lemma py_round3_half: "py_round3 (of_int k / 2) = of_int k / 2"
proof -
  have "(of_int k / 2 :: rat) = of_int (500 * k) / 1000" by simp
  then show ?thesis using py_round3_of_int [of "500 * k"] by simp
qed

lemma py_round3_Ints:
  assumes "2 * x \<in> \<int>"
  shows "py_round3 x = x"
proof -
  from assms obtain k :: int where "2 * x = of_int k"
    by (auto elim: Ints_cases)
  then have "x = of_int k / 2"
    by (simp add: field_simps)
  then show ?thesis
    by (simp only: py_round3_half)
qed

section \<open>The score as a sum\<close>

text \<open>
  The six summands of \<^verbatim>\<open>total_score\<close>, written as one expression. The measurement
  summand needs no case split: with no measurement the minimum is zero anyway.
\<close>

definition raw_total :: "evaluator_agent \<Rightarrow> analysis_item \<Rightarrow> rat" where
  "raw_total self item =
     (let a = analysis item in
      of_nat (length (keywords_detected a)) * dict_get (weights self) ''keyword'' 2
      + (if numeric_count_for_bonus self < int (length (numbers_found a))
         then dict_get (weights self) ''numeric_bonus'' 3 else 0)
      + min (of_nat (length (measurements a)) * (1 / 2)) 3
      + (if min_word_count_for_length_bonus self \<le> word_count a
         then dict_get (weights self) ''length_bonus'' 1 else 0)
      + min (of_nat (length (claims a)) * dict_get (weights self) ''claim_bonus'' (3 / 2)) 6
      + (if word_count a < 6 then - 2 else 0))"

lemma score_raw_total: "r_score (score self item) = py_round3 (raw_total self item)"
  by (simp add: score_def raw_total_def Let_def)

lemma default_weights [simp]:
  "dict_get (weights (EvaluatorAgent_init thr None)) ''keyword'' d = 2"
  "dict_get (weights (EvaluatorAgent_init thr None)) ''numeric_bonus'' d = 3"
  "dict_get (weights (EvaluatorAgent_init thr None)) ''length_bonus'' d = 1"
  "dict_get (weights (EvaluatorAgent_init thr None)) ''claim_bonus'' d = 3 / 2"
  by (simp_all add: EvaluatorAgent_init_def DEFAULT_WEIGHTS_def dict_get_def)

lemma half_min: "2 * (a::rat) \<in> \<int> \<Longrightarrow> 2 * b \<in> \<int> \<Longrightarrow> 2 * min a b \<in> \<int>"
  by (simp add: min_def)

text \<open>When every weight is a multiple of one half, so is the total.\<close>

lemma raw_total_half:
  assumes "2 * dict_get (weights self) ''keyword'' 2 \<in> \<int>"
    and "2 * dict_get (weights self) ''numeric_bonus'' 3 \<in> \<int>"
    and "2 * dict_get (weights self) ''length_bonus'' 1 \<in> \<int>"
    and "2 * dict_get (weights self) ''claim_bonus'' (3 / 2) \<in> \<int>"
  shows "2 * raw_total self item \<in> \<int>"
proof -
  have m: "2 * min (of_nat n * (1 / 2)) (3::rat) \<in> \<int>" for n :: nat
    by (rule half_min) simp_all
  have k: "2 * (of_nat n * w) \<in> \<int>" if "2 * w \<in> \<int>" for n :: nat and w :: rat
  proof -
    have "2 * (of_nat n * w) = of_nat n * (2 * w)"
      by simp
    then show ?thesis
      using that by (simp only: Ints_mult Ints_of_nat)
  qed
  have c: "2 * min (of_nat n * w) (6::rat) \<in> \<int>" if "2 * w \<in> \<int>" for n :: nat and w :: rat
    by (rule half_min) (use that k in simp_all)
  show ?thesis
    unfolding raw_total_def Let_def distrib_left
    by (intro Ints_add k m c assms) (simp_all add: assms)
qed

lemma raw_total_default_ge: "- 2 \<le> raw_total (EvaluatorAgent_init thr None) item"
proof -
  let ?s = "EvaluatorAgent_init thr None" and ?a = "analysis item"
  have A: "0 \<le> of_nat (length (keywords_detected ?a)) * dict_get (weights ?s) ''keyword'' 2"
    by simp
  have B: "0 \<le> (if numeric_count_for_bonus ?s < int (length (numbers_found ?a))
                 then dict_get (weights ?s) ''numeric_bonus'' 3 else 0)"
    by simp
  have C: "0 \<le> min (of_nat (length (measurements ?a)) * (1 / 2)) (3::rat)"
    by simp
  have D: "0 \<le> (if min_word_count_for_length_bonus ?s \<le> word_count ?a
                 then dict_get (weights ?s) ''length_bonus'' 1 else 0)"
    by simp
  have E: "0 \<le> min (of_nat (length (claims ?a)) * dict_get (weights ?s) ''claim_bonus'' (3 / 2)) 6"
    by simp
  have F: "- 2 \<le> (if word_count ?a < 6 then - 2 else (0::rat))"
    by simp
  show ?thesis
    unfolding raw_total_def Let_def using A B C D E F by linarith
qed

lemma raw_total_more_keyword:
  assumes "length kws = Suc (length (keywords_detected (analysis item)))"
  shows "raw_total self (item\<lparr>analysis := (analysis item)\<lparr>keywords_detected := kws\<rparr>\<rparr>)
       = raw_total self item + dict_get (weights self) ''keyword'' 2"
  using assms by (simp add: raw_total_def Let_def algebra_simps)

section \<open>Claims about the scorer\<close>

text \<open>
  C6, as the spec states it: of two records that differ only in that the second has one
  more detected keyword, the second scores exactly \<^verbatim>\<open>weight_keyword\<close> more. The
  score is the total rounded to three decimals, so this fails for a weight finer than
  a thousandth: with the keyword weight 0.0001 and ten words, no keyword and one keyword
  both score 0.0.
\<close>

theorem C6_keyword_step_counterexample:
  "r_score (score fine_weights
      (ten_words\<lparr>analysis := (analysis ten_words)\<lparr>keywords_detected := [''mass'']\<rparr>\<rparr>))
   \<noteq> r_score (score fine_weights ten_words) + dict_get (weights fine_weights) ''keyword'' 2"
  by code_simp

text \<open>
  C6, amended: with the default weights, where \<^verbatim>\<open>weight_keyword\<close> is 2.0, one more
  detected keyword (all other fields fixed) raises the score by exactly 2.0, for every
  threshold. Every summand is then a multiple of one half, which the rounding leaves as
  it is.
\<close>

theorem C6_keyword_step:
  assumes "length kws = Suc (length (keywords_detected (analysis item)))"
  shows "r_score (score (EvaluatorAgent_init thr None)
            (item\<lparr>analysis := (analysis item)\<lparr>keywords_detected := kws\<rparr>\<rparr>))
       = r_score (score (EvaluatorAgent_init thr None) item) + 2
     \<and> dict_get (weights (EvaluatorAgent_init thr None)) ''keyword'' 2 = 2"
proof -
  let ?ev = "EvaluatorAgent_init thr None"
  let ?item' = "item\<lparr>analysis := (analysis item)\<lparr>keywords_detected := kws\<rparr>\<rparr>"
  have "2 * raw_total ?ev item \<in> \<int>" "2 * raw_total ?ev ?item' \<in> \<int>"
    by (rule raw_total_half; simp)+
  then have "r_score (score ?ev item) = raw_total ?ev item"
    "r_score (score ?ev ?item') = raw_total ?ev ?item'"
    by (simp_all only: score_raw_total py_round3_Ints)
  then show ?thesis
    using raw_total_more_keyword [OF assms, of ?ev] by simp
qed

theorem C6_keyword_step_witness:
  "r_score (score (EvaluatorAgent_init 3 None)
      (ten_words\<lparr>analysis := (analysis ten_words)\<lparr>keywords_detected := [''mass'']\<rparr>\<rparr>))
   = r_score (score (EvaluatorAgent_init 3 None) ten_words) + 2"
  using C6_keyword_step [of "[''mass'']" ten_words 3]
  by (simp add: ten_words_def empty_analysis_def)

text \<open>
  C7: for every analysis record and every evaluator the \<^verbatim>\<open>measurement_score\<close> entry of
  the breakdown is \<^verbatim>\<open>min(len(measurements) * 0.5, 3.0)\<close>; with exactly ten measurements
  it is 3.0.
\<close>

theorem C7_measurement_score_capped:
  "r_breakdown (score self item) ''measurement_score''
     = Some (min (of_nat (length (measurements (analysis item))) * (1 / 2)) 3)
   \<and> (length (measurements (analysis item)) = 10 \<longrightarrow>
        r_breakdown (score self item) ''measurement_score'' = Some 3)"
  by (simp add: score_def Let_def)

theorem C7_measurement_score_capped_witness:
  "length (measurements (analysis (ten_words\<lparr>analysis :=
       (analysis ten_words)\<lparr>measurements := replicate 10 days33\<rparr>\<rparr>))) = 10
   \<and> r_breakdown (score (EvaluatorAgent_init 3 None)
       (ten_words\<lparr>analysis := (analysis ten_words)\<lparr>measurements := replicate 10 days33\<rparr>\<rparr>))
       ''measurement_score'' = Some 3"
  using C7_measurement_score_capped [of "EvaluatorAgent_init 3 None"
      "ten_words\<lparr>analysis := (analysis ten_words)\<lparr>measurements := replicate 10 days33\<rparr>\<rparr>"]
  by simp

text \<open>
  C10: with the default weights and thresholds the score of every analysis record is at
  least -2.0. It is a multiple of one half, which the rounding to three decimals leaves
  as it is.
\<close>

theorem C10_default_score_lower_bound:
  "- 2 \<le> r_score (score (EvaluatorAgent_init thr None) item)
   \<and> (\<exists>k::int. r_score (score (EvaluatorAgent_init thr None) item) = of_int k / 2)
   \<and> r_score (score (EvaluatorAgent_init thr None) item)
       = raw_total (EvaluatorAgent_init thr None) item"
proof -
  let ?s = "EvaluatorAgent_init thr None"
  have h: "2 * raw_total ?s item \<in> \<int>"
    by (rule raw_total_half) simp_all
  then have eq: "r_score (score ?s item) = raw_total ?s item"
    by (simp add: score_raw_total py_round3_Ints)
  from h obtain k :: int where "2 * raw_total ?s item = of_int k"
    by (auto elim: Ints_cases)
  then have "raw_total ?s item = of_int k / 2"
    by (simp add: field_simps)
  with eq raw_total_default_ge [of thr item] show ?thesis
    by auto
qed

section \<open>Substrings and lower case\<close>

text \<open>\<^const>\<open>py_in\<close> is the substring relation.\<close>

lemma py_in_sublist: "py_in sub s = sublist sub s"
  by (induction s) (auto simp: sublist_Cons_right)

text \<open>A letter in lower case is not a capital: \<^const>\<open>lower\<close> changes nothing the second time.\<close>

lemma lower_char_idem: "lower_char (lower_char c) = lower_char c"
proof (cases "(65 \<le> code c \<and> code c \<le> 90) \<or> (192 \<le> code c \<and> code c \<le> 214)
    \<or> (216 \<le> code c \<and> code c \<le> 222)")
  case True
  define m where "m = code c + 32"
  have 1: "lower_char c = char_of m"
    using True by (simp add: lower_char_def Let_def m_def)
  have "m < 256"
    using True unfolding m_def by arith
  then have 2: "code (char_of m) = m"
    by (simp add: code_def)
  have 3: "\<not> ((65 \<le> m \<and> m \<le> 90) \<or> (192 \<le> m \<and> m \<le> 214) \<or> (216 \<le> m \<and> m \<le> 222))"
    using True unfolding m_def by arith
  have "lower_char (char_of m) = char_of m"
    unfolding lower_char_def Let_def 2 by (rule if_not_P) (rule 3)
  then show ?thesis
    by (simp only: 1)
next
  case False
  have "lower_char c = c"
    unfolding lower_char_def Let_def by (rule if_not_P) (rule False)
  then show ?thesis
    by (simp only:)
qed

lemma lower_idem: "lower (lower s) = lower s"
  by (simp add: lower_def lower_char_idem)

lemma count_list_filter: "count_list (filter P xs) k = (if P k then count_list xs k else 0)"
  by (induction xs) auto

section \<open>Claims about the analyzer\<close>

text \<open>
  C2, as the spec states it: for every configuration the analysis of the empty text has
  no detected keyword and the empty snippet. Two configurations refute it: the empty
  string in the vocabulary is a substring of the empty text, and with a negative
  \<^verbatim>\<open>max_snippet_chars\<close> the length 0 of the text exceeds the bound, so the marker
  \<^verbatim>\<open>...\<close> is appended.
\<close>

theorem C2_empty_text_counterexample:
  "keywords_detected (analyze_text (AnalyzerAgent_init (Some ['''']) 30 400) '''') = ['''']
   \<and> snippet (analyze_text (AnalyzerAgent_init None 30 (- 1)) '''') = ''...''"
  by code_simp

text \<open>
  C2, amended: for every configuration whose vocabulary does not contain the empty string
  and whose \<^verbatim>\<open>max_snippet_chars\<close> is not negative, the analysis of the empty text has
  both counts 0, the five sequences empty and the empty snippet.
\<close>

theorem C2_empty_text:
  assumes "[] \<notin> set (self_keywords self)"
    and "0 \<le> max_snippet_chars self"
  shows "analyze_text self [] = empty_analysis"
proof -
  have "filter (\<lambda>kw. py_in kw []) (self_keywords self) = []"
    using assms(1) by (auto simp: filter_empty_conv)
  then show ?thesis
    using assms(2)
    by (simp add: analyze_text_def clean_text_def empty_analysis_def py_split.simps
        extract_sentences_def extract_numbers_def extract_measurements_def find_keywords_def
        find_claims_def slice_to_def lower_def)
qed

theorem C2_empty_text_witness: "analyze_text AnalyzerAgent_default [] = empty_analysis"
proof -
  have "[] \<notin> set (self_keywords AnalyzerAgent_default)"
    by code_simp
  moreover have "0 \<le> max_snippet_chars AnalyzerAgent_default"
    by code_simp
  ultimately show ?thesis
    by (rule C2_empty_text)
qed

text \<open>
  C3, as the spec states it: every found vocabulary entry appears exactly once in
  \<^verbatim>\<open>keywords_detected\<close>, whose elements are entries of the configured vocabulary and
  at most as many. The vocabulary \<^verbatim>\<open>["Mass", "mass"]\<close> has two entries that are equal in
  lower case, and the text \<^verbatim>\<open>mass\<close> then yields the keyword twice. The empty
  vocabulary is replaced by the default one, and the text \<^verbatim>\<open>orbit\<close> then yields a
  keyword that no configured entry is.
\<close>

theorem C3_keywords_counterexample:
  "keywords_detected
     (analyze_text (AnalyzerAgent_init (Some [''Mass'', ''mass'']) 30 400) ''mass'')
   = [''mass'', ''mass'']
   \<and> keywords_detected (analyze_text (AnalyzerAgent_init (Some []) 30 400) ''orbit'')
   = [''orbit'']"
  by code_simp

text \<open>
  C3, amended: let the vocabulary in force be the configured one, or the built-in
  default list when none or an empty one is configured. For every text, each element
  of \<^verbatim>\<open>keywords_detected\<close> is the lower-case form of an entry of the vocabulary in force
  and a case-insensitive substring of the normalized text; a found entry appears as
  often as it occurs among the lower-case forms, and so exactly once when these are
  distinct; the sequence is in vocabulary order; its length is at most the length of
  the vocabulary in force.
\<close>

theorem C3_keywords:
  assumes "voc = (case kws of None \<Rightarrow> DEFAULT_KEYWORDS
                  | Some ks \<Rightarrow> if ks = [] then DEFAULT_KEYWORDS else ks)"
    and "kd = keywords_detected (analyze_text (AnalyzerAgent_init kws mcl msc) t)"
  shows "set kd \<subseteq> lower ` set voc
    \<and> (\<forall>k \<in> set kd. sublist (lower k) (lower (clean_text t)))
    \<and> (\<forall>k. count_list kd k =
          (if sublist k (lower (clean_text t)) then count_list (map lower voc) k else 0))
    \<and> subseq kd (map lower voc)
    \<and> length kd \<le> length voc
    \<and> (distinct (map lower voc) \<longrightarrow> distinct kd)"
proof -
  let ?txt = "lower (clean_text t)"
  have sk: "self_keywords (AnalyzerAgent_init kws mcl msc) = map lower voc"
    by (simp add: AnalyzerAgent_init_def assms(1))
  have kd: "kd = filter (\<lambda>kw. sublist kw ?txt) (map lower voc)"
    by (simp add: assms(2) analyze_text_def find_keywords_def Let_def py_in_sublist sk)
  have low: "lower k = k" if "k \<in> set (map lower voc)" for k
    using that by (auto simp: lower_idem)
  have 1: "set kd \<subseteq> lower ` set voc"
    by (auto simp: kd)
  have 2: "\<forall>k \<in> set kd. sublist (lower k) ?txt"
  proof
    fix k
    assume "k \<in> set kd"
    then have m: "k \<in> set (map lower voc)" and s: "sublist k ?txt"
      by (simp_all add: kd)
    from m have "lower k = k"
      by (rule low)
    with s show "sublist (lower k) ?txt"
      by (simp only:)
  qed
  have 3: "\<forall>k. count_list kd k = (if sublist k ?txt then count_list (map lower voc) k else 0)"
    by (simp add: kd count_list_filter)
  have 4: "subseq kd (map lower voc)"
    by (simp add: kd)
  have "length kd \<le> length (map lower voc)"
    unfolding kd by (rule length_filter_le)
  then have 5: "length kd \<le> length voc"
    by simp
  have 6: "distinct (map lower voc) \<longrightarrow> distinct kd"
    by (simp add: kd)
  from 1 2 3 4 5 6 show ?thesis
    by blast
qed

theorem C3_keywords_witness:
  "keywords_detected
     (analyze_text (AnalyzerAgent_init (Some [''Mass'', ''Orbit'']) 30 400) ''The MASS of it'')
     = [''mass'']
   \<and> set [''mass''] \<subseteq> lower ` set [''Mass'', ''Orbit'']
   \<and> subseq [''mass''] (map lower [''Mass'', ''Orbit''])
   \<and> length [''mass''] \<le> length [''Mass'', ''Orbit'']"
proof -
  let ?self = "AnalyzerAgent_init (Some [''Mass'', ''Orbit'']) 30 400"
  have e1: "keywords_detected (analyze_text ?self ''The MASS of it'') = [''mass'']"
    by code_simp
  have e2: "(case Some [''Mass'', ''Orbit''] of None \<Rightarrow> DEFAULT_KEYWORDS
             | Some ks \<Rightarrow> if ks = [] then DEFAULT_KEYWORDS else ks) = [''Mass'', ''Orbit'']"
    by simp
  note th = C3_keywords [OF e2 [symmetric] e1 [symmetric]]
  from th have "set [''mass''] \<subseteq> lower ` set [''Mass'', ''Orbit'']"
    by (rule conjunct1)
  moreover from th have "subseq [''mass''] (map lower [''Mass'', ''Orbit''])"
    by blast
  moreover from th have "length [''mass''] \<le> length [''Mass'', ''Orbit'']"
    by blast
  ultimately show ?thesis
    using e1 by blast
qed

text \<open>
  C4: the spec has a signed integer such as \<^verbatim>\<open>-5\<close> yield -5.0. In
  \<^verbatim>\<open>[-+]?\d*\.\d+|\d+\<close> the sign belongs to the alternative with the decimal point
  only, so the token found in \<^verbatim>\<open>-5\<close> is \<^verbatim>\<open>5\<close> and the number is 5.0, although
  \<^verbatim>\<open>float\<close> would read the sign.
\<close>

theorem C4_signed_integer_loses_sign:
  "findall_numbers ''-5'' = [''5'']
   \<and> numbers_found (analyze_text AnalyzerAgent_default ''-5'') = [5]
   \<and> py_float ''-5'' = Some (- 5)"
  by code_simp

text \<open>
  C5: for the sample text and the default configuration, 124.0, 2.6 and 33.0 are among
  \<^verbatim>\<open>numbers_found\<close> in this order, and \<^verbatim>\<open>exoplanet\<close>, \<^verbatim>\<open>radius\<close>, \<^verbatim>\<open>orbital\<close> and
  \<^verbatim>\<open>period\<close> are among \<^verbatim>\<open>keywords_detected\<close>.
\<close>

theorem C5_sample_text:
  "numbers_found (analyze_text AnalyzerAgent_default k2_18b) = [2, 18, 124, 26 / 10, 33]
   \<and> subseq [124, 26 / 10, 33] (numbers_found (analyze_text AnalyzerAgent_default k2_18b))
   \<and> ''exoplanet'' \<in> set (keywords_detected (analyze_text AnalyzerAgent_default k2_18b))
   \<and> ''radius'' \<in> set (keywords_detected (analyze_text AnalyzerAgent_default k2_18b))
   \<and> ''orbital'' \<in> set (keywords_detected (analyze_text AnalyzerAgent_default k2_18b))
   \<and> ''period'' \<in> set (keywords_detected (analyze_text AnalyzerAgent_default k2_18b))"
proof -
  have n: "numbers_found (analyze_text AnalyzerAgent_default k2_18b) = [2, 18, 124, 26 / 10, 33]"
    by code_simp
  have k: "keywords_detected (analyze_text AnalyzerAgent_default k2_18b)
      = [''exoplanet'', ''orbital'', ''orbit'', ''radius'', ''period'', ''days'', ''light-years'']"
    by code_simp
  show ?thesis
    unfolding n k by simp
qed

section \<open>Normalization is idempotent\<close>

text \<open>
  A text is single-spaced when its only white space is the blank and no blank is followed
  by white space. \<^const>\<open>sub_ws\<close> produces such texts and leaves them as they are, and
  \<^const>\<open>strip\<close> keeps them so.
\<close>

fun single_spaced :: "string \<Rightarrow> bool" where
  "single_spaced [] = True"
| "single_spaced (c # cs) =
     ((is_space c \<longrightarrow> c = CHR '' '' \<and> (cs = [] \<or> \<not> is_space (hd cs))) \<and> single_spaced cs)"

lemma is_space_blank [simp]: "is_space CHR '' ''"
  by (simp add: is_space_def code_def)

lemma sub_ws_hd: "\<not> is_space c \<Longrightarrow> sub_ws (c # cs) = c # sub_ws cs"
  by simp

lemma sub_ws_no_space_first:
  assumes "s = [] \<or> \<not> is_space (hd s)"
  shows "sub_ws s = [] \<or> \<not> is_space (hd (sub_ws s))"
  using assms by (cases s) auto

lemma single_spaced_sub_ws: "single_spaced (sub_ws s)"
proof (induction s rule: sub_ws.induct)
  case 1
  show ?case by simp
next
  case (2 c cs)
  show ?case
  proof (cases "is_space c")
    case True
    have "dropWhile is_space cs = [] \<or> \<not> is_space (hd (dropWhile is_space cs))"
      using hd_dropWhile [of is_space cs] by blast
    then have "sub_ws (dropWhile is_space cs) = [] \<or> \<not> is_space (hd (sub_ws (dropWhile is_space cs)))"
      by (rule sub_ws_no_space_first)
    with True 2 show ?thesis by simp
  next
    case False
    with 2 show ?thesis by simp
  qed
qed

lemma sub_ws_fixed: "single_spaced s \<Longrightarrow> sub_ws s = s"
proof (induction s)
  case Nil
  show ?case by simp
next
  case (Cons c cs)
  show ?case
  proof (cases "is_space c")
    case True
    with Cons.prems have c: "c = CHR '' ''" and "cs = [] \<or> \<not> is_space (hd cs)"
      by auto
    then have "dropWhile is_space cs = cs"
      by (simp add: dropWhile_eq_self_iff)
    with True c Cons show ?thesis by simp
  next
    case False
    with Cons show ?thesis by simp
  qed
qed

lemma single_spaced_blank: "single_spaced s \<Longrightarrow> c \<in> set s \<Longrightarrow> is_space c \<Longrightarrow> c = CHR '' ''"
  by (induction s) auto

lemma replace_char_fixed:
  assumes "single_spaced s" and "is_space old" and "old \<noteq> CHR '' ''"
  shows "replace_char old new s = s"
proof -
  have "old \<notin> set s"
    using assms single_spaced_blank by blast
  then show ?thesis
    unfolding replace_char_def by (induction s) auto
qed

lemma single_spaced_dropWhile: "single_spaced s \<Longrightarrow> single_spaced (dropWhile P s)"
  by (induction s) auto

lemma single_spaced_prefix: "single_spaced (a @ b) \<Longrightarrow> single_spaced a"
  by (induction a) (auto simp: hd_append split: if_splits)

lemma strip_prefix: "\<exists>u. dropWhile is_space s = strip s @ u"
proof -
  let ?v = "dropWhile is_space s"
  have "rev ?v = takeWhile is_space (rev ?v) @ dropWhile is_space (rev ?v)"
    by simp
  then have "?v = rev (dropWhile is_space (rev ?v)) @ rev (takeWhile is_space (rev ?v))"
    by (metis rev_append rev_rev_ident)
  then show ?thesis
    unfolding strip_def by blast
qed

lemma single_spaced_strip: "single_spaced s \<Longrightarrow> single_spaced (strip s)"
proof -
  assume "single_spaced s"
  then have "single_spaced (dropWhile is_space s)"
    by (rule single_spaced_dropWhile)
  moreover obtain u where "dropWhile is_space s = strip s @ u"
    using strip_prefix by blast
  ultimately show ?thesis
    using single_spaced_prefix by metis
qed

lemma strip_idem: "strip (strip s) = strip s"
proof -
  obtain u where u: "dropWhile is_space s = strip s @ u"
    using strip_prefix by blast
  have "strip s = [] \<or> \<not> is_space (hd (strip s))"
  proof (cases "strip s")
    case Nil
    then show ?thesis by simp
  next
    case (Cons x xs)
    with u have "hd (dropWhile is_space s) = x" and "dropWhile is_space s \<noteq> []"
      by auto
    then have "\<not> is_space x"
      using hd_dropWhile [of is_space s] by blast
    with Cons show ?thesis by simp
  qed
  then have 1: "dropWhile is_space (strip s) = strip s"
    by (simp add: dropWhile_eq_self_iff)
  have 2: "dropWhile is_space (rev (strip s)) = rev (strip s)"
    by (simp add: strip_def)
  show ?thesis
    unfolding strip_def [of "strip s"] 1 2 by simp
qed

lemma is_space_tab_cr: "is_space (CHR 0x09)" "is_space (CHR 0x0D)"
  by (simp_all add: is_space_def code_def)

lemma clean_text_idem: "clean_text (clean_text t) = clean_text t"
proof (cases "clean_text t = []")
  case True
  then show ?thesis
    by (simp add: clean_text_def)
next
  case False
  then have t: "t \<noteq> []"
    by (auto simp: clean_text_def)
  let ?v = "clean_text t"
  have v: "?v = strip (sub_ws (replace_char (CHR 0x09) CHR '' '' (replace_char (CHR 0x0D) CHR '' '' t)))"
    using t by (simp add: clean_text_def)
  have ss: "single_spaced ?v"
    unfolding v by (rule single_spaced_strip) (rule single_spaced_sub_ws)
  have r1: "replace_char (CHR 0x0D) CHR '' '' ?v = ?v"
    using ss is_space_tab_cr(2) by (rule replace_char_fixed) simp
  have r2: "replace_char (CHR 0x09) CHR '' '' ?v = ?v"
    using ss is_space_tab_cr(1) by (rule replace_char_fixed) simp
  have r3: "sub_ws ?v = ?v"
    using ss by (rule sub_ws_fixed)
  have r4: "strip ?v = ?v"
    unfolding v by (rule strip_idem)
  have "clean_text ?v = strip (sub_ws (replace_char (CHR 0x09) CHR '' '' (replace_char (CHR 0x0D) CHR '' '' ?v)))"
    using False by (simp add: clean_text_def [of ?v])
  also have "\<dots> = ?v"
    by (simp only: r1 r2 r3 r4)
  finally show ?thesis .
qed

text \<open>
  C8: for every text and configuration, the analysis of the normalized text is the
  analysis of the text itself, in every field.
\<close>

theorem C8_analysis_of_normalized_text:
  "analyze_text self (clean_text t) = analyze_text self t"
  by (simp add: analyze_text_def clean_text_idem)

section \<open>The score does not depend on the run\<close>

text \<open>
  \<^const>\<open>run_on_item\<close> and \<^const>\<open>score\<close> are functions of the item, the analyzer and the
  evaluator: the source reads no clock, no random number and no variable outside these
  three, so two runs on the same arguments return the same result. What one run may
  not share with the next is the order of the vocabulary, when it is configured as a
  Python set, whose enumeration depends on the string hashing of the process. The
  analysis then differs at most in the order of \<^const>\<open>keywords_detected\<close>, and the
  score reads only its length.
\<close>

lemma length_filter_mset: "mset xs = mset ys \<Longrightarrow> length (filter P xs) = length (filter P ys)"
proof -
  assume "mset xs = mset ys"
  then have "mset (filter P xs) = mset (filter P ys)"
    by simp
  then show ?thesis
    by (rule mset_eq_length)
qed

lemma list_ex_mset: "mset xs = mset ys \<Longrightarrow> list_ex P xs = list_ex P ys"
  by (auto simp: list_ex_iff dest: mset_eq_setD)

lemma analyze_text_vocabulary_order:
  assumes "mset (self_keywords a1) = mset (self_keywords a2)"
    and "min_claim_length a1 = min_claim_length a2"
    and "max_snippet_chars a1 = max_snippet_chars a2"
  shows "analyze_text a1 t = (analyze_text a2 t)\<lparr>keywords_detected := keywords_detected (analyze_text a1 t)\<rparr>"
    and "length (keywords_detected (analyze_text a1 t)) = length (keywords_detected (analyze_text a2 t))"
proof -
  have "find_claims a1 s = find_claims a2 s" for s
    unfolding find_claims_def assms(2) list_ex_mset [OF assms(1)] ..
  then show "analyze_text a1 t = (analyze_text a2 t)\<lparr>keywords_detected := keywords_detected (analyze_text a1 t)\<rparr>"
    by (simp add: analyze_text_def Let_def assms(3))
  show "length (keywords_detected (analyze_text a1 t)) = length (keywords_detected (analyze_text a2 t))"
    by (simp add: analyze_text_def find_keywords_def Let_def length_filter_mset [OF assms(1)])
qed

lemma score_keywords_length:
  assumes "length kws = length (keywords_detected (analysis item))"
  shows "score ev (item\<lparr>analysis := (analysis item)\<lparr>keywords_detected := kws\<rparr>\<rparr>)
       = (score ev item)\<lparr>r_raw_analysis := (analysis item)\<lparr>keywords_detected := kws\<rparr>\<rparr>"
proof -
  have "(kws = []) = (keywords_detected (analysis item) = [])"
    using assms by (metis length_0_conv)
  with assms show ?thesis
    by (simp add: score_def Let_def)
qed

text \<open>
  C1: two runs of \<^verbatim>\<open>analyze_text\<close> followed by \<^verbatim>\<open>score\<close> on the same text with
  the same configuration, in whatever order each run enumerates the vocabulary,
  produce the same score, verdict, reasons and breakdown.
\<close>

theorem C1_score_deterministic:
  assumes "mset (self_keywords a1) = mset (self_keywords a2)"
    and "min_claim_length a1 = min_claim_length a2"
    and "max_snippet_chars a1 = max_snippet_chars a2"
  shows "r_score (score ev (run_on_item a1 it)) = r_score (score ev (run_on_item a2 it))
    \<and> r_passed_threshold (score ev (run_on_item a1 it))
        = r_passed_threshold (score ev (run_on_item a2 it))
    \<and> r_reasons (score ev (run_on_item a1 it)) = r_reasons (score ev (run_on_item a2 it))
    \<and> r_breakdown (score ev (run_on_item a1 it)) = r_breakdown (score ev (run_on_item a2 it))
    \<and> r_original_id (score ev (run_on_item a1 it))
        = r_original_id (score ev (run_on_item a2 it))"
proof -
  let ?t = "case item_raw it of None \<Rightarrow> [] | Some raw \<Rightarrow> raw"
  let ?k = "keywords_detected (analyze_text a1 ?t)"
  have 1: "run_on_item a1 it
      = (run_on_item a2 it)\<lparr>analysis :=
          (analysis (run_on_item a2 it))\<lparr>keywords_detected := ?k\<rparr>\<rparr>"
    using analyze_text_vocabulary_order(1) [OF assms, of ?t] by (simp add: run_on_item_def)
  have 2: "length ?k = length (keywords_detected (analysis (run_on_item a2 it)))"
    using analyze_text_vocabulary_order(2) [OF assms, of ?t] by (simp add: run_on_item_def)
  show ?thesis
    unfolding 1 score_keywords_length [OF 2] by simp
qed

theorem C1_score_deterministic_witness:
  "r_score (score (EvaluatorAgent_init 3 None)
      (run_on_item (AnalyzerAgent_init (Some [''mass'', ''orbit'']) 30 400) mass_item))
     = r_score (score (EvaluatorAgent_init 3 None)
        (run_on_item (AnalyzerAgent_init (Some [''orbit'', ''mass'']) 30 400) mass_item))
   \<and> r_score (score (EvaluatorAgent_init 3 None)
        (run_on_item (AnalyzerAgent_init (Some [''mass'', ''orbit'']) 30 400) mass_item))
     = 11 / 2"
proof -
  let ?a1 = "AnalyzerAgent_init (Some [''mass'', ''orbit'']) 30 400"
  let ?a2 = "AnalyzerAgent_init (Some [''orbit'', ''mass'']) 30 400"
  have "self_keywords ?a1 = [''mass'', ''orbit'']" "self_keywords ?a2 = [''orbit'', ''mass'']"
    by code_simp+
  then have m: "mset (self_keywords ?a1) = mset (self_keywords ?a2)"
    by (simp add: add_mset_commute)
  have l: "min_claim_length ?a1 = min_claim_length ?a2"
    "max_snippet_chars ?a1 = max_snippet_chars ?a2"
    by (simp_all add: AnalyzerAgent_init_def)
  have v: "r_score (score (EvaluatorAgent_init 3 None) (run_on_item ?a1 mass_item)) = 11 / 2"
    by code_simp
  from C1_score_deterministic [OF m l, of "EvaluatorAgent_init 3 None" mass_item] v
  show ?thesis
    by simp
qed

section \<open>Every match is a float literal\<close>

text \<open>
  The only operation of the analyzer that can raise is \<^verbatim>\<open>float\<close>, inside the
  \<^verbatim>\<open>try\<close> of the two extraction loops. Every match of the number pattern and every
  value group of the measurement pattern is a literal that \<^const>\<open>py_float\<close> reads, so
  the \<^verbatim>\<open>except\<close> branch is never taken and no match is passed over.
\<close>

lemma not_digit [simp]:
  "\<not> is_digit CHR ''.''" "\<not> is_digit CHR ''-''" "\<not> is_digit CHR ''+''"
  "\<not> is_digit CHR ''e''" "\<not> is_digit CHR ''E''"
  by (simp_all add: is_digit_def code_def)

lemma digit_not_sign: "is_digit c \<Longrightarrow> c \<noteq> CHR ''-'' \<and> c \<noteq> CHR ''+'' \<and> c \<noteq> CHR ''.''"
  by auto

lemma digits_takeWhile [simp]: "list_all is_digit (takeWhile is_digit s)"
  by (induction s) auto

lemma takeWhile_digits_then:
  assumes "list_all is_digit d" and "\<not> is_digit x"
  shows "takeWhile is_digit (d @ x # r) = d" and "dropWhile is_digit (d @ x # r) = x # r"
  using assms by (induction d) auto

lemma takeWhile_digits_all:
  assumes "list_all is_digit d"
  shows "takeWhile is_digit d = d" and "dropWhile is_digit d = []"
  using assms by (induction d) auto

definition is_sign_prefix :: "string \<Rightarrow> bool" where
  "is_sign_prefix sg = (sg = [] \<or> sg = ''-'' \<or> sg = ''+'')"

lemma opt_sign_prefix: "opt_sign s = (sg, r) \<Longrightarrow> is_sign_prefix sg"
  by (auto simp: opt_sign_def is_sign_prefix_def split: list.splits if_splits)

lemma opt_sign_rebuild:
  assumes "is_sign_prefix sg" and "r = [] \<or> (hd r \<noteq> CHR ''-'' \<and> hd r \<noteq> CHR ''+'')"
  shows "opt_sign (sg @ r) = (sg, r)"
  using assms by (cases r) (auto simp: opt_sign_def is_sign_prefix_def)

lemma py_float_decimal:
  assumes "is_sign_prefix sg" and "list_all is_digit ip" and "list_all is_digit fp" and "fp \<noteq> []"
  shows "py_float (sg @ ip @ CHR ''.'' # fp) \<noteq> None"
proof -
  have "ip @ CHR ''.'' # fp = [] \<or> (hd (ip @ CHR ''.'' # fp) \<noteq> CHR ''-'' \<and> hd (ip @ CHR ''.'' # fp) \<noteq> CHR ''+'')"
    using assms(2) by (cases ip) (auto dest: digit_not_sign)
  then have 1: "opt_sign (sg @ ip @ CHR ''.'' # fp) = (sg, ip @ CHR ''.'' # fp)"
    using assms(1) by (rule opt_sign_rebuild [rotated])
  show ?thesis
    unfolding py_float_def 1
    using assms(4)
    by (simp add: Let_def takeWhile_digits_then [OF assms(2)] takeWhile_digits_all [OF assms(3)]
        float_exponent_def)
qed

lemma py_float_digits:
  assumes "list_all is_digit ds" and "ds \<noteq> []"
  shows "py_float ds \<noteq> None"
proof -
  have "opt_sign ([] @ ds) = ([], ds)"
    using assms by (intro opt_sign_rebuild) (auto simp: is_sign_prefix_def dest: digit_not_sign intro: hd_in_set simp: list_all_iff)
  then have 1: "opt_sign ds = ([], ds)"
    by simp
  show ?thesis
    unfolding py_float_def 1
    using assms(2)
    by (simp add: Let_def takeWhile_digits_all [OF assms(1)] float_exponent_def)
qed

lemma py_float_exponent:
  assumes "list_all is_digit ds" and "ds \<noteq> []" and "c = CHR ''e'' \<or> c = CHR ''E''"
    and "is_sign_prefix sg" and "list_all is_digit ed" and "ed \<noteq> []"
  shows "py_float (ds @ c # sg @ ed) \<noteq> None"
proof -
  have nd: "\<not> is_digit c" and np: "c \<noteq> CHR ''.''"
    using assms(3) by auto
  have "opt_sign ([] @ ds @ c # sg @ ed) = ([], ds @ c # sg @ ed)"
    using assms(1,2) by (intro opt_sign_rebuild) (cases ds; auto simp: is_sign_prefix_def dest: digit_not_sign)+
  then have 1: "opt_sign (ds @ c # sg @ ed) = ([], ds @ c # sg @ ed)"
    by simp
  have "ed = [] \<or> (hd ed \<noteq> CHR ''-'' \<and> hd ed \<noteq> CHR ''+'')"
    using assms(5) by (cases ed) (auto dest: digit_not_sign)
  then have 2: "opt_sign (sg @ ed) = (sg, ed)"
    using assms(4) by (rule opt_sign_rebuild [rotated])
  have 3: "float_exponent (c # sg @ ed) \<noteq> None"
    using assms(3,5,6) by (simp add: float_exponent_def 2)
  then obtain e where e: "float_exponent (c # sg @ ed) = Some e"
    by auto
  show ?thesis
    unfolding py_float_def 1
    using assms(2) np
    by (simp add: Let_def takeWhile_digits_then [OF assms(1) nd] e)
qed

lemma match_decimal_parses:
  assumes "match_decimal s = Some (tok, rest)"
  shows "py_float tok \<noteq> None"
proof -
  obtain sg r1 where sg: "opt_sign s = (sg, r1)"
    by (cases "opt_sign s")
  from assms sg obtain r3 where tok: "tok = sg @ takeWhile is_digit r1 @ CHR ''.'' # takeWhile is_digit r3"
    and ne: "takeWhile is_digit r3 \<noteq> []"
    by (auto simp: match_decimal_def Let_def split: list.splits if_splits)
  show ?thesis
    unfolding tok using opt_sign_prefix [OF sg] digits_takeWhile digits_takeWhile ne
    by (rule py_float_decimal)
qed

lemma match_digits_parses:
  assumes "match_digits s = Some (tok, rest)"
  shows "py_float tok \<noteq> None" and "list_all is_digit tok" and "tok \<noteq> []"
proof -
  from assms have tok: "tok = takeWhile is_digit s" and ne: "takeWhile is_digit s \<noteq> []"
    by (auto simp: match_digits_def split: if_splits)
  show "list_all is_digit tok" "tok \<noteq> []"
    using ne by (simp_all add: tok)
  then show "py_float tok \<noteq> None"
    by (rule py_float_digits)
qed

lemma match_number_parses:
  assumes "match_number s = Some (tok, rest)"
  shows "py_float tok \<noteq> None"
  using assms
  by (auto simp: match_number_def orelse_def split: option.splits
      dest: match_decimal_parses match_digits_parses(1))

lemma findall_numbers_parse: "m \<in> set (findall_numbers s) \<Longrightarrow> py_float m \<noteq> None"
proof (induction s rule: findall_numbers.induct)
  case 1
  then show ?case by simp
next
  case (2 c cs)
  then show ?case
    by (auto split: option.splits dest: match_number_parses)
qed

lemma extract_numbers_loop_map_filter: "extract_numbers_loop ms = List.map_filter py_float ms"
  by (induction ms) (auto simp: map_filter_simps split: option.splits)

lemma extract_numbers_loop_length:
  "(\<And>m. m \<in> set ms \<Longrightarrow> py_float m \<noteq> None) \<Longrightarrow> length (extract_numbers_loop ms) = length ms"
  by (induction ms) (auto split: option.splits)

lemma match_exponent_shape:
  assumes "match_exponent s = Some (ex, rest)"
  shows "\<exists>c sg ed. ex = c # sg @ ed \<and> (c = CHR ''e'' \<or> c = CHR ''E'') \<and> is_sign_prefix sg
           \<and> list_all is_digit ed \<and> ed \<noteq> []"
proof -
  from assms obtain c cs where s: "s = c # cs" and c: "c = CHR ''e'' \<or> c = CHR ''E''"
    by (cases s) (auto simp: match_exponent_def split: if_splits)
  obtain sg r where sg: "opt_sign cs = (sg, r)"
    by (cases "opt_sign cs")
  from assms s c sg have "ex = c # sg @ takeWhile is_digit r" and "takeWhile is_digit r \<noteq> []"
    by (auto simp: match_exponent_def Let_def split: if_splits)
  with c opt_sign_prefix [OF sg] show ?thesis
    by (intro exI [of _ c] exI [of _ sg] exI [of _ "takeWhile is_digit r"]) simp
qed

lemma match_unit_value: "match_unit v s = Some (raw, v', u, rest) \<Longrightarrow> v' = v"
  by (auto simp: match_unit_def Let_def split: if_splits)

lemma match_measurement_value:
  assumes "match_measurement s = Some (raw, v, u, rest)"
  shows "(\<exists>r. match_decimal s = Some (v, r))
    \<or> (\<exists>ds r ex r'. match_digits s = Some (ds, r) \<and> match_exponent r = Some (ex, r') \<and> v = ds @ ex)
    \<or> (\<exists>r. match_digits s = Some (v, r))"
  using assms unfolding match_measurement_def orelse_def
  by (auto simp: match_unit_def Let_def split: option.splits if_splits)

lemma match_measurement_parses:
  assumes "match_measurement s = Some (raw, v, u, rest)"
  shows "py_float v \<noteq> None"
proof -
  from match_measurement_value [OF assms] consider
      (decimal) r where "match_decimal s = Some (v, r)"
    | (exponent) ds r ex r' where "match_digits s = Some (ds, r)" "match_exponent r = Some (ex, r')"
        "v = ds @ ex"
    | (digits) r where "match_digits s = Some (v, r)"
    by blast
  then show ?thesis
  proof cases
    case decimal
    then show ?thesis by (rule match_decimal_parses)
  next
    case exponent
    from match_exponent_shape [OF exponent(2)] obtain c sg ed
      where "ex = c # sg @ ed" "c = CHR ''e'' \<or> c = CHR ''E''" "is_sign_prefix sg"
        "list_all is_digit ed" "ed \<noteq> []"
      by blast
    with match_digits_parses(2,3) [OF exponent(1)] show ?thesis
      unfolding exponent(3) by (simp add: py_float_exponent)
  next
    case digits
    then show ?thesis by (rule match_digits_parses(1))
  qed
qed

lemma finditer_measurements_parse:
  "(raw, v, u) \<in> set (finditer_measurements s) \<Longrightarrow> py_float v \<noteq> None"
proof (induction s rule: finditer_measurements.induct)
  case 1
  then show ?case by simp
next
  case (2 c cs)
  then show ?case
    by (auto split: option.splits dest: match_measurement_parses)
qed

lemma extract_measurements_loop_length:
  "list_all (\<lambda>(raw, v, u). py_float v \<noteq> None) ms
    \<Longrightarrow> length (extract_measurements_loop ms) = length ms"
  by (induction ms rule: extract_measurements_loop.induct) (auto split: option.splits)

lemma finditer_measurements_all_parse:
  "list_all (\<lambda>(raw, v, u). py_float v \<noteq> None) (finditer_measurements s)"
  unfolding list_all_iff using finditer_measurements_parse by fastforce

text \<open>
  C9: neither operation signals an error. Both are total functions of the model: every
  loop of the source is a recursion with a termination proof, and the one operation that
  can raise is caught per match. For every text, \<^verbatim>\<open>numbers_found\<close> holds the matches that
  \<^verbatim>\<open>float\<close> reads, a match it rejects being passed over alone, and in fact none is
  rejected: numbers and measurements are as many as the matches. Both counts are not
  negative. For every analysis record the result of \<^verbatim>\<open>score\<close> has the six entries of the
  breakdown, at least one reason and the record itself; the all-zero record scores -2.0
  under the default weights.
\<close>

theorem C9_no_error:
  "numbers_found (analyze_text self t)
     = List.map_filter py_float (findall_numbers (clean_text t))
   \<and> length (numbers_found (analyze_text self t)) = length (findall_numbers (clean_text t))
   \<and> length (measurements (analyze_text self t))
       = length (finditer_measurements (clean_text t))
   \<and> 0 \<le> word_count (analyze_text self t)
   \<and> 0 \<le> sentence_count (analyze_text self t)
   \<and> dom (r_breakdown (score ev item))
       = {''keyword_score'', ''numeric_score'', ''measurement_score'', ''length_score'',
          ''claim_score'', ''penalty''}
   \<and> r_reasons (score ev item) \<noteq> []
   \<and> r_raw_analysis (score ev item) = analysis item
   \<and> r_score (score (EvaluatorAgent_init thr None) zero_item) = - 2"
proof -
  have 1: "numbers_found (analyze_text self t)
      = List.map_filter py_float (findall_numbers (clean_text t))"
    by (simp add: analyze_text_def Let_def extract_numbers_def extract_numbers_loop_map_filter)
  have 2: "length (numbers_found (analyze_text self t)) = length (findall_numbers (clean_text t))"
    by (simp add: analyze_text_def Let_def extract_numbers_def extract_numbers_loop_length
        findall_numbers_parse)
  have 3: "length (measurements (analyze_text self t))
      = length (finditer_measurements (clean_text t))"
    unfolding analyze_text_def Let_def extract_measurements_def
    using extract_measurements_loop_length [OF finditer_measurements_all_parse] by simp
  have 4: "0 \<le> word_count (analyze_text self t)" "0 \<le> sentence_count (analyze_text self t)"
    by (simp_all add: analyze_text_def Let_def)
  have 5: "dom (r_breakdown (score ev item))
       = {''keyword_score'', ''numeric_score'', ''measurement_score'', ''length_score'',
          ''claim_score'', ''penalty''}"
    by (auto simp: score_def Let_def)
  have 6: "r_reasons (score ev item) \<noteq> []" "r_raw_analysis (score ev item) = analysis item"
    by (simp_all add: score_def Let_def)
  have 7: "r_score (score (EvaluatorAgent_init thr None) zero_item) = - 2"
    by (simp add: score_def Let_def zero_item_def empty_analysis_def EvaluatorAgent_init_def
        py_round3_def)
  from 1 2 3 4 5 6 7 show ?thesis
    by simp
qed

end
